theory Spec2Isabelle
  imports Complex_Main
begin

section \<open>Data model of the statistics aggregator (src/App.tsx)\<close>

text \<open>
  The aggregator lives in the callback \<open>processSimulations\<close> of \<open>src/App.tsx\<close>
  (lines 31-73). JavaScript numbers that hold amounts and ratios are modelled as
  \<open>real\<close> (exact arithmetic on finite numbers); the spin counter and array lengths
  are \<open>nat\<close>. The one non-finite value the code can produce by itself,
  \<open>-Infinity\<close> from \<open>Math.max()\<close> applied to an empty spread, is modelled
  explicitly by \<open>xnum\<close>.

  The catalog \<open>SLOTS\<close>, the initial map \<open>INITIAL_STATS_MAP\<close> and the simulator
  \<open>runBatchSimulation\<close> are imported by the file and are parameters of the model.
\<close>

record SlotConfig =
  cfg_id :: string
  name :: string
  rtp :: real
  hitFreq :: real

record SpinResult =
  stake :: real
  win :: real
  multiplier :: real

datatype trend = Up | Down

record SlotStats =
  liveRtp :: real
  totalSpins :: nat
  totalStakes :: real
  totalWins :: real
  maxMultiplier :: real
  history :: "SpinResult list"
  recentRtpHistory :: "real list"
  trend :: trend

datatype error = TypeError

type_synonym statsMap = "string \<rightharpoonup> SlotStats"

section \<open>Library operations used by the code\<close>

text \<open>\<open>xs.slice(-n)\<close>: the last \<open>n\<close> elements, all of \<open>xs\<close> when it is shorter.\<close>

definition slice_last :: "nat \<Rightarrow> 'a list \<Rightarrow> 'a list" where
  "slice_last n xs = drop (length xs - n) xs"

datatype xnum = NegInfinity | Num real

text \<open>\<open>Math.max(...xs)\<close>: \<open>-Infinity\<close> when there is no argument.\<close>

fun Math_max :: "real list \<Rightarrow> xnum" where
  "Math_max [] = NegInfinity"
| "Math_max (x # xs) = (case Math_max xs of NegInfinity \<Rightarrow> Num x | Num m \<Rightarrow> Num (max x m))"

text \<open>\<open>Math.max(a, b)\<close> for a finite \<open>a\<close> and a \<open>b\<close> that may be \<open>-Infinity\<close>.\<close>

fun Math_max2 :: "real \<Rightarrow> xnum \<Rightarrow> real" where
  "Math_max2 a NegInfinity = a"
| "Math_max2 a (Num b) = max a b"

section \<open>The aggregation step\<close>

text \<open>Lines 43-45: the sums and the maximum of the batch.\<close>

definition batchStakes :: "SpinResult list \<Rightarrow> real" where
  "batchStakes batchResults = foldl (\<lambda>sum r. sum + stake r) 0 batchResults"

definition batchWins :: "SpinResult list \<Rightarrow> real" where
  "batchWins batchResults = foldl (\<lambda>sum r. sum + win r) 0 batchResults"

definition batchMaxMulti :: "SpinResult list \<Rightarrow> xnum" where
  "batchMaxMulti batchResults = Math_max (map multiplier batchResults)"

text \<open>Lines 47-53.\<close>

definition newLiveRtp :: "SlotStats \<Rightarrow> SlotConfig \<Rightarrow> SpinResult list \<Rightarrow> real" where
  "newLiveRtp currentStats config batchResults =
     (let updatedTotalStakes = totalStakes currentStats + batchStakes batchResults;
          updatedTotalWins = totalWins currentStats + batchWins batchResults
      in if updatedTotalStakes > 0
         then (updatedTotalWins / updatedTotalStakes) * 100
         else rtp config)"

text \<open>Lines 47-68: the record written to \<open>nextMap[slotId]\<close>.\<close>

definition applyBatch :: "SlotStats \<Rightarrow> SlotConfig \<Rightarrow> SpinResult list \<Rightarrow> SlotStats" where
  "applyBatch currentStats config batchResults =
     (let updatedTotalStakes = totalStakes currentStats + batchStakes batchResults;
          updatedTotalWins = totalWins currentStats + batchWins batchResults;
          newRtp = newLiveRtp currentStats config batchResults;
          newHistory = slice_last 100 (history currentStats @ batchResults);
          newRtpHistory = slice_last 30 (recentRtpHistory currentStats @ [newRtp])
      in currentStats\<lparr>
           liveRtp := newRtp,
           totalSpins := totalSpins currentStats + length batchResults,
           totalStakes := updatedTotalStakes,
           totalWins := updatedTotalWins,
           maxMultiplier := Math_max2 (maxMultiplier currentStats) (batchMaxMulti batchResults),
           history := newHistory,
           recentRtpHistory := newRtpHistory,
           trend := (if newRtp > liveRtp currentStats then Up else Down)\<rparr>)"

text \<open>
  Lines 39 and 43-68 for one slot id whose configuration was found: reading a field of
  \<open>nextMap[slotId]\<close> when the map has no such key throws a \<open>TypeError\<close>.
\<close>

definition aggregate :: "statsMap \<Rightarrow> string \<Rightarrow> SlotConfig \<Rightarrow> SpinResult list \<Rightarrow> error + statsMap" where
  "aggregate nextMap slotId config batchResults =
     (case nextMap slotId of
        None \<Rightarrow> Inl TypeError
      | Some currentStats \<Rightarrow> Inr (nextMap(slotId \<mapsto> applyBatch currentStats config batchResults)))"

text \<open>
  Lines 36-68, the body of the \<open>forEach\<close> callback. The simulator is a parameter: it
  takes the state of the random source and returns the batch and the next state.
\<close>

text \<open>Line 36: \<open>SLOTS.find(s => s.id === slotId)\<close>, the first match or \<open>undefined\<close>.\<close>

definition SLOTS_find :: "SlotConfig list \<Rightarrow> string \<Rightarrow> SlotConfig option" where
  "SLOTS_find SLOTS slotId = find (\<lambda>s. cfg_id s = slotId) SLOTS"

type_synonym 'g simulator = "'g \<Rightarrow> SlotConfig \<Rightarrow> nat \<Rightarrow> real \<Rightarrow> SpinResult list \<times> 'g"

definition processSlot ::
  "'g simulator \<Rightarrow> SlotConfig list \<Rightarrow> real \<Rightarrow> string \<Rightarrow> statsMap \<times> 'g \<Rightarrow> error + statsMap \<times> 'g" where
  "processSlot runBatchSimulation SLOTS globalStake slotId st =
     (case st of (nextMap, g) \<Rightarrow>
        (case SLOTS_find SLOTS slotId of
           None \<Rightarrow> Inr (nextMap, g)
         | Some config \<Rightarrow>
             (case runBatchSimulation g config 100 globalStake of (batchResults, g') \<Rightarrow>
                (case aggregate nextMap slotId config batchResults of
                   Inl e \<Rightarrow> Inl e
                 | Inr nextMap' \<Rightarrow> Inr (nextMap', g')))))"

text \<open>\<open>activeSlots.forEach\<close>: the ids in insertion order; an exception ends the loop.\<close>

fun forEach :: "('a \<Rightarrow> 's \<Rightarrow> error + 's) \<Rightarrow> 'a list \<Rightarrow> 's \<Rightarrow> error + 's" where
  "forEach f [] s = Inr s"
| "forEach f (x # xs) s = (case f x s of Inl e \<Rightarrow> Inl e | Inr s' \<Rightarrow> forEach f xs s')"

text \<open>Lines 32-72: the state updater, from the previous map to the next one.\<close>

definition processSimulations ::
  "'g simulator \<Rightarrow> SlotConfig list \<Rightarrow> string list \<Rightarrow> real \<Rightarrow> statsMap \<Rightarrow> 'g \<Rightarrow> error + statsMap \<times> 'g" where
  "processSimulations runBatchSimulation SLOTS activeSlots globalStake prev g =
     forEach (processSlot runBatchSimulation SLOTS globalStake) activeSlots (prev, g)"

text \<open>A sequence of aggregation steps on one record, and the snapshots it appends.\<close>

fun applyBatches :: "SlotStats \<Rightarrow> SlotConfig \<Rightarrow> SpinResult list list \<Rightarrow> SlotStats" where
  "applyBatches s config [] = s"
| "applyBatches s config (b # bs) = applyBatches (applyBatch s config b) config bs"

fun snapshots :: "SlotStats \<Rightarrow> SlotConfig \<Rightarrow> SpinResult list list \<Rightarrow> real list" where
  "snapshots s config [] = []"
| "snapshots s config (b # bs) =
     liveRtp (applyBatch s config b) # snapshots (applyBatch s config b) config bs"

section \<open>Concrete data for the evaluated instances\<close>

definition cfg0 :: SlotConfig where
  "cfg0 = \<lparr>cfg_id = ''book-of-dead'', name = ''Book of Dead'', rtp = 96, hitFreq = 1/4\<rparr>"

definition stats0 :: SlotStats where
  "stats0 = \<lparr>liveRtp = 96, totalSpins = 0, totalStakes = 0, totalWins = 0, maxMultiplier = 0,
             history = [], recentRtpHistory = [], trend = Up\<rparr>"

definition spin :: "real \<Rightarrow> real \<Rightarrow> SpinResult" where
  "spin st w = \<lparr>stake = st, win = w, multiplier = (if st > 0 then w / st else 0)\<rparr>"

text \<open>
  An instance of the simulator parameter: \<open>count\<close> equal spins, paying twice the
  stake when the state of the random source is even and nothing otherwise.
\<close>

definition sim0 :: "nat simulator" where
  "sim0 g config count st = (replicate count (spin st (if even g then 2 * st else 0)), Suc g)"

definition map0 :: statsMap where
  "map0 = [''book-of-dead'' \<mapsto> stats0, ''razor-shark'' \<mapsto> stats0]"

section \<open>Predicates used in the statements\<close>

definition nonneg_batch :: "SpinResult list \<Rightarrow> bool" where
  "nonneg_batch b = (\<forall>r\<in>set b. 0 \<le> stake r \<and> 0 \<le> win r \<and> 0 \<le> multiplier r)"

definition accumulators_le :: "SlotStats \<Rightarrow> SlotStats \<Rightarrow> bool" where
  "accumulators_le s t =
     (totalSpins s \<le> totalSpins t \<and> totalStakes s \<le> totalStakes t
      \<and> totalWins s \<le> totalWins t \<and> maxMultiplier s \<le> maxMultiplier t)"

section \<open>Basic facts\<close>

lemma fold_add_stake: "foldl (\<lambda>sum r. sum + stake r) a xs = a + sum_list (map stake xs)"
  by (induction xs arbitrary: a) simp_all

lemma fold_add_win: "foldl (\<lambda>sum r. sum + win r) a xs = a + sum_list (map win xs)"
  by (induction xs arbitrary: a) simp_all

lemma batchStakes_sum: "batchStakes xs = sum_list (map stake xs)"
  by (simp add: batchStakes_def fold_add_stake)

lemma batchWins_sum: "batchWins xs = sum_list (map win xs)"
  by (simp add: batchWins_def fold_add_win)

lemma liveRtp_applyBatch: "liveRtp (applyBatch s c b) = newLiveRtp s c b"
  by (simp add: applyBatch_def Let_def)

lemma trend_applyBatch:
  "trend (applyBatch s c b) = (if newLiveRtp s c b > liveRtp s then Up else Down)"
  by (simp add: applyBatch_def Let_def)

section \<open>Trend\<close>

text \<open>
  C6: after an aggregation step, trend is 'up' exactly when the newly computed liveRtp
  is strictly greater than the liveRtp stored before the step; in every other case,
  an exact tie included, trend is 'down'.
\<close>

theorem trend_up_iff_strictly_greater:
  "(trend (applyBatch s c b) = Up) = (liveRtp (applyBatch s c b) > liveRtp s)
   \<and> (trend (applyBatch s c b) = Down) = (liveRtp (applyBatch s c b) \<le> liveRtp s)"
  by (simp add: trend_applyBatch liveRtp_applyBatch)


theorem trend_up_iff_strictly_greater_witness:
  "trend (applyBatch stats0 cfg0 [spin 1 2]) = Up
   \<and> trend (applyBatch (applyBatch stats0 cfg0 [spin 1 2]) cfg0 [spin 1 2]) = Down
   \<and> liveRtp (applyBatch (applyBatch stats0 cfg0 [spin 1 2]) cfg0 [spin 1 2])
       = liveRtp (applyBatch stats0 cfg0 [spin 1 2])"
  using trend_up_iff_strictly_greater [of stats0 cfg0 "[spin 1 2]"]
    trend_up_iff_strictly_greater [of "applyBatch stats0 cfg0 [spin 1 2]" cfg0 "[spin 1 2]"]
  by (simp add: applyBatch_def newLiveRtp_def batchStakes_def batchWins_def stats0_def
      cfg0_def spin_def Let_def)

section \<open>Live RTP\<close>

lemma totalStakes_applyBatch:
  "totalStakes (applyBatch s c b) = totalStakes s + sum_list (map stake b)"
  by (simp add: applyBatch_def Let_def batchStakes_sum)

lemma totalWins_applyBatch:
  "totalWins (applyBatch s c b) = totalWins s + sum_list (map win b)"
  by (simp add: applyBatch_def Let_def batchWins_sum)

lemma totalSpins_applyBatch: "totalSpins (applyBatch s c b) = totalSpins s + length b"
  by (simp add: applyBatch_def Let_def)

lemma maxMultiplier_applyBatch:
  "maxMultiplier (applyBatch s c b) = Math_max2 (maxMultiplier s) (batchMaxMulti b)"
  by (simp add: applyBatch_def Let_def)

lemma history_applyBatch: "history (applyBatch s c b) = slice_last 100 (history s @ b)"
  by (simp add: applyBatch_def Let_def)

lemma recentRtpHistory_applyBatch:
  "recentRtpHistory (applyBatch s c b)
     = slice_last 30 (recentRtpHistory s @ [liveRtp (applyBatch s c b)])"
  by (simp add: applyBatch_def Let_def)

lemma liveRtp_from_totals:
  "liveRtp (applyBatch s c b) =
     (if totalStakes (applyBatch s c b) > 0
      then totalWins (applyBatch s c b) / totalStakes (applyBatch s c b) * 100
      else rtp c)"
  by (simp add: liveRtp_applyBatch newLiveRtp_def Let_def totalStakes_applyBatch
      totalWins_applyBatch batchStakes_sum batchWins_sum)



lemma applyBatches_append:
  "applyBatches s c (xs @ ys) = applyBatches (applyBatches s c xs) c ys"
  by (induction xs arbitrary: s) simp_all



section \<open>Bounded windows\<close>

lemma length_slice_last: "length (slice_last n xs) \<le> n"
  by (simp add: slice_last_def)

lemma slice_last_short: "length xs \<le> n \<Longrightarrow> slice_last n xs = xs"
  by (simp add: slice_last_def)

lemma slice_last_append_slice:
  "slice_last n (slice_last n xs @ ys) = slice_last n (xs @ ys)"
proof (cases "length xs \<le> n")
  case True
  then show ?thesis by (simp add: slice_last_short)
next
  case False
  then show ?thesis
    by (simp add: slice_last_def add.commute)
qed

lemma history_applyBatches:
  "length (history s) \<le> 100 \<Longrightarrow>
     history (applyBatches s c bs) = slice_last 100 (history s @ concat bs)"
proof (induction bs arbitrary: s)
  case Nil
  then show ?case by (simp add: slice_last_short)
next
  case (Cons b bs)
  have "length (history (applyBatch s c b)) \<le> 100"
    by (simp add: history_applyBatch length_slice_last)
  then have "history (applyBatches (applyBatch s c b) c bs)
      = slice_last 100 (history (applyBatch s c b) @ concat bs)"
    by (rule Cons.IH)
  also have "\<dots> = slice_last 100 ((history s @ b) @ concat bs)"
    unfolding history_applyBatch by (rule slice_last_append_slice)
  finally show ?case by simp
qed

lemma recentRtpHistory_applyBatches:
  "length (recentRtpHistory s) \<le> 30 \<Longrightarrow>
     recentRtpHistory (applyBatches s c bs)
       = slice_last 30 (recentRtpHistory s @ snapshots s c bs)"
proof (induction bs arbitrary: s)
  case Nil
  then show ?case by (simp add: slice_last_short)
next
  case (Cons b bs)
  let ?s = "applyBatch s c b"
  have "length (recentRtpHistory ?s) \<le> 30"
    by (subst recentRtpHistory_applyBatch) (rule length_slice_last)
  then have "recentRtpHistory (applyBatches ?s c bs)
      = slice_last 30 (recentRtpHistory ?s @ snapshots ?s c bs)"
    by (rule Cons.IH)
  also have "\<dots> = slice_last 30 ((recentRtpHistory s @ [liveRtp ?s]) @ snapshots ?s c bs)"
    by (subst recentRtpHistory_applyBatch) (rule slice_last_append_slice)
  finally show ?case by simp
qed

text \<open>
  C3: after any sequence of aggregation steps from a record whose two windows are
  empty, history has at most 100 elements and is the last 100 of all the spin results
  appended, in order; recentRtpHistory has at most 30 elements and is the last 30 of
  the liveRtp values of the successive steps, in order.
\<close>

theorem windows_bounded_and_most_recent:
  assumes "history s = []" and "recentRtpHistory s = []"
  shows "length (history (applyBatches s c bs)) \<le> 100
    \<and> history (applyBatches s c bs) = slice_last 100 (concat bs)
    \<and> length (recentRtpHistory (applyBatches s c bs)) \<le> 30
    \<and> recentRtpHistory (applyBatches s c bs) = slice_last 30 (snapshots s c bs)"
proof -
  have h: "history (applyBatches s c bs) = slice_last 100 (concat bs)"
    using history_applyBatches [of s c bs] assms(1) by simp
  have r: "recentRtpHistory (applyBatches s c bs) = slice_last 30 (snapshots s c bs)"
    using recentRtpHistory_applyBatches [of s c bs] assms(2) by simp
  show ?thesis
    by (simp add: h r length_slice_last)
qed


theorem windows_bounded_and_most_recent_witness:
  "history stats0 = [] \<and> recentRtpHistory stats0 = []
   \<and> length (history (applyBatches stats0 cfg0
        [replicate 60 (spin 1 0), replicate 60 (spin 1 2)])) \<le> 100
   \<and> history (applyBatches stats0 cfg0 [replicate 60 (spin 1 0), replicate 60 (spin 1 2)])
       = replicate 40 (spin 1 0) @ replicate 60 (spin 1 2)
   \<and> recentRtpHistory (applyBatches stats0 cfg0 [[spin 1 0], [spin 1 2]]) = [0, 100]"
proof -
  have h: "history stats0 = []" and r: "recentRtpHistory stats0 = []"
    by (simp_all add: stats0_def)
  have l: "liveRtp (applyBatch stats0 cfg0 [spin 1 0]) = 0"
    "liveRtp (applyBatch (applyBatch stats0 cfg0 [spin 1 0]) cfg0 [spin 1 2]) = 100"
    by (simp_all add: liveRtp_from_totals totalStakes_applyBatch totalWins_applyBatch
        stats0_def spin_def)
  show ?thesis
    using windows_bounded_and_most_recent
      [OF h r, of cfg0 "[replicate 60 (spin 1 0), replicate 60 (spin 1 2)]"]
      windows_bounded_and_most_recent [OF h r, of cfg0 "[[spin 1 0], [spin 1 2]]"]
    by (simp add: h r l slice_last_def)
qed

text \<open>
  C9: after an aggregation step, for every batch and so for every non-empty one,
  recentRtpHistory is not empty and its last element is the liveRtp stored by that step.
\<close>

theorem last_snapshot_is_liveRtp:
  "recentRtpHistory (applyBatch s c b) \<noteq> []
   \<and> last (recentRtpHistory (applyBatch s c b)) = liveRtp (applyBatch s c b)"
  by (simp add: recentRtpHistory_applyBatch slice_last_def)

theorem last_snapshot_is_liveRtp_witness:
  "recentRtpHistory (applyBatch stats0 cfg0 [spin 1 2, spin 1 0]) = [100]
   \<and> last (recentRtpHistory (applyBatch stats0 cfg0 [spin 1 2, spin 1 0]))
       = liveRtp (applyBatch stats0 cfg0 [spin 1 2, spin 1 0])"
  using last_snapshot_is_liveRtp [of stats0 cfg0 "[spin 1 2, spin 1 0]"]
  by (simp add: recentRtpHistory_applyBatch liveRtp_from_totals totalStakes_applyBatch
      totalWins_applyBatch slice_last_def stats0_def spin_def)

section \<open>Accumulators\<close>

lemma Math_max2_ge: "a \<le> Math_max2 a x"
  by (cases x) simp_all

lemma sum_field_nonneg:
  fixes f :: "SpinResult \<Rightarrow> real"
  shows "\<forall>r\<in>set b. 0 \<le> f r \<Longrightarrow> 0 \<le> sum_list (map f b)"
  by (induction b) simp_all

lemma applyBatch_accumulators_le:
  assumes "nonneg_batch b"
  shows "accumulators_le s (applyBatch s c b)"
proof -
  from assms have "0 \<le> sum_list (map stake b)" and "0 \<le> sum_list (map win b)"
    by (simp_all add: nonneg_batch_def sum_field_nonneg)
  then show ?thesis
    by (simp add: accumulators_le_def totalSpins_applyBatch totalStakes_applyBatch
        totalWins_applyBatch maxMultiplier_applyBatch Math_max2_ge)
qed

lemma accumulators_le_trans:
  "accumulators_le s t \<Longrightarrow> accumulators_le t u \<Longrightarrow> accumulators_le s u"
  by (auto simp: accumulators_le_def)

lemma applyBatches_accumulators_le:
  "\<forall>b\<in>set bs. nonneg_batch b \<Longrightarrow> accumulators_le s (applyBatches s c bs)"
proof (induction bs arbitrary: s)
  case Nil
  then show ?case by (simp add: accumulators_le_def)
next
  case (Cons b bs)
  then have "accumulators_le s (applyBatch s c b)"
    by (simp add: applyBatch_accumulators_le)
  moreover from Cons have "accumulators_le (applyBatch s c b) (applyBatches (applyBatch s c b) c bs)"
    by simp
  ultimately show ?case
    by (simp add: accumulators_le_trans)
qed

text \<open>
  C4: when every spin result of every batch has stake, win and multiplier at least 0,
  a single aggregation step never decreases totalSpins, totalStakes, totalWins or
  maxMultiplier, and along a sequence of steps on one record the four fields after
  the first i steps are at most their values after the first j steps, for i \<le> j.
\<close>

theorem accumulators_non_decreasing:
  "(nonneg_batch b \<longrightarrow> accumulators_le s (applyBatch s c b))
   \<and> ((\<forall>b\<in>set bs. nonneg_batch b) \<and> i \<le> j \<longrightarrow>
        accumulators_le (applyBatches s c (take i bs)) (applyBatches s c (take j bs)))"
proof (intro conjI impI)
  assume "nonneg_batch b"
  then show "accumulators_le s (applyBatch s c b)"
    by (rule applyBatch_accumulators_le)
next
  assume a: "(\<forall>b\<in>set bs. nonneg_batch b) \<and> i \<le> j"
  then have "take j bs = take i bs @ take (j - i) (drop i bs)"
    using take_add [of i "j - i" bs] by simp
  moreover have "\<forall>b\<in>set (take (j - i) (drop i bs)). nonneg_batch b"
    using a by (meson in_set_takeD in_set_dropD)
  ultimately show "accumulators_le (applyBatches s c (take i bs)) (applyBatches s c (take j bs))"
    by (simp add: applyBatches_append applyBatches_accumulators_le)
qed

theorem accumulators_non_decreasing_witness:
  "nonneg_batch [spin 1 2, spin 1 0]
   \<and> accumulators_le stats0 (applyBatch stats0 cfg0 [spin 1 2, spin 1 0])
   \<and> nonneg_batch [spin 1 2] \<and> nonneg_batch [spin 1 0] \<and> nonneg_batch [spin 2 10]
   \<and> accumulators_le (applyBatches stats0 cfg0 (take 1 [[spin 1 2], [spin 1 0], [spin 2 10]]))
        (applyBatches stats0 cfg0 (take 3 [[spin 1 2], [spin 1 0], [spin 2 10]]))
   \<and> maxMultiplier (applyBatches stats0 cfg0 (take 1 [[spin 1 2], [spin 1 0], [spin 2 10]])) = 2
   \<and> maxMultiplier (applyBatches stats0 cfg0 (take 3 [[spin 1 2], [spin 1 0], [spin 2 10]])) = 5"
  using accumulators_non_decreasing [of "[spin 1 2, spin 1 0]" stats0 cfg0
      "[[spin 1 2], [spin 1 0], [spin 2 10]]" 1 3]
  by (simp add: nonneg_batch_def spin_def maxMultiplier_applyBatch batchMaxMulti_def stats0_def)


section \<open>Empty batches\<close>

text \<open>
  C7 as stated fails: the aggregator has no check of the batch size. On an empty batch
  it returns an updated record without any error; here the record even differs from
  the previous one (a snapshot is appended and trend changes from 'up' to 'down').
\<close>

theorem empty_batch_returns_record:
  "aggregate map0 ''book-of-dead'' cfg0 []
     = Inr (map0(''book-of-dead'' \<mapsto> stats0\<lparr>recentRtpHistory := [96], trend := Down\<rparr>))"
  by (simp add: aggregate_def map0_def applyBatch_def newLiveRtp_def batchStakes_def
      batchWins_def batchMaxMulti_def slice_last_def stats0_def cfg0_def Let_def)

text \<open>
  C7, amended: the aggregator invoked with an empty batch on an existing record
  signals no error. It returns the updated record: totalSpins, totalStakes, totalWins
  and maxMultiplier are unchanged, history is its own last 100 elements, liveRtp is
  recomputed from the unchanged totals (the configured rtp when totalStakes is not
  positive), that value is appended to recentRtpHistory (last 30 kept), and trend
  compares it with the previous liveRtp.
\<close>

theorem empty_batch_no_error:
  assumes "nextMap slotId = Some s"
  shows "aggregate nextMap slotId c [] = Inr (nextMap(slotId \<mapsto> applyBatch s c []))
    \<and> totalSpins (applyBatch s c []) = totalSpins s
    \<and> totalStakes (applyBatch s c []) = totalStakes s
    \<and> totalWins (applyBatch s c []) = totalWins s
    \<and> maxMultiplier (applyBatch s c []) = maxMultiplier s
    \<and> history (applyBatch s c []) = slice_last 100 (history s)
    \<and> liveRtp (applyBatch s c [])
        = (if totalStakes s > 0 then totalWins s / totalStakes s * 100 else rtp c)
    \<and> recentRtpHistory (applyBatch s c [])
        = slice_last 30 (recentRtpHistory s @ [liveRtp (applyBatch s c [])])
    \<and> trend (applyBatch s c []) = (if liveRtp (applyBatch s c []) > liveRtp s then Up else Down)"
proof -
  have "aggregate nextMap slotId c [] = Inr (nextMap(slotId \<mapsto> applyBatch s c []))"
    using assms by (simp add: aggregate_def)
  moreover have "maxMultiplier (applyBatch s c []) = maxMultiplier s"
    by (simp add: maxMultiplier_applyBatch batchMaxMulti_def)
  moreover have "liveRtp (applyBatch s c [])
      = (if totalStakes s > 0 then totalWins s / totalStakes s * 100 else rtp c)"
    by (simp add: liveRtp_from_totals totalStakes_applyBatch totalWins_applyBatch)
  moreover have "recentRtpHistory (applyBatch s c [])
      = slice_last 30 (recentRtpHistory s @ [liveRtp (applyBatch s c [])])"
    by (rule recentRtpHistory_applyBatch)
  moreover have "trend (applyBatch s c [])
      = (if liveRtp (applyBatch s c []) > liveRtp s then Up else Down)"
    by (simp add: trend_applyBatch liveRtp_applyBatch)
  ultimately show ?thesis
    by (simp add: totalSpins_applyBatch totalStakes_applyBatch totalWins_applyBatch
        history_applyBatch)
qed

theorem empty_batch_no_error_witness:
  "map0 ''razor-shark'' = Some stats0
   \<and> aggregate map0 ''razor-shark'' cfg0 []
       = Inr (map0(''razor-shark'' \<mapsto> applyBatch stats0 cfg0 []))
   \<and> totalSpins (applyBatch stats0 cfg0 []) = 0
   \<and> liveRtp (applyBatch stats0 cfg0 []) = 96
   \<and> recentRtpHistory (applyBatch stats0 cfg0 []) = [96]
   \<and> trend (applyBatch stats0 cfg0 []) = Down"
proof -
  have m: "map0 ''razor-shark'' = Some stats0"
    by (simp add: map0_def)
  show ?thesis
    using empty_batch_no_error [of map0 "''razor-shark''" stats0 cfg0]
    by (simp add: m stats0_def cfg0_def slice_last_def)
qed

section \<open>Ids absent from the catalog, and the frame of a tick\<close>

lemma processSlot_unknown:
  "SLOTS_find SLOTS slotId = None \<Longrightarrow> processSlot sim SLOTS gs slotId (m, g) = Inr (m, g)"
  by (simp add: processSlot_def)

lemma processSlot_frame:
  assumes "processSlot sim SLOTS gs x (m, g) = Inr (m', g')"
    and "k \<noteq> x \<or> SLOTS_find SLOTS k = None"
  shows "m' k = m k"
proof (cases "SLOTS_find SLOTS x")
  case None
  with assms(1) show ?thesis
    by (simp add: processSlot_def)
next
  case (Some config)
  with assms(2) have "k \<noteq> x"
    by auto
  with assms(1) Some show ?thesis
    by (auto simp: processSlot_def aggregate_def split: prod.splits option.splits sum.splits)
qed

lemma forEach_processSlot_frame:
  assumes "forEach (processSlot sim SLOTS gs) xs (m, g) = Inr (m', g')"
    and "k \<notin> set xs \<or> SLOTS_find SLOTS k = None"
  shows "m' k = m k"
  using assms
proof (induction xs arbitrary: m g)
  case Nil
  then show ?case by simp
next
  case (Cons x xs)
  from Cons.prems(1) obtain m1 g1 where
    step: "processSlot sim SLOTS gs x (m, g) = Inr (m1, g1)" and
    rest: "forEach (processSlot sim SLOTS gs) xs (m1, g1) = Inr (m', g')"
    by (auto split: sum.splits)
  from Cons.prems(2) have "k \<noteq> x \<or> SLOTS_find SLOTS k = None"
    and "k \<notin> set xs \<or> SLOTS_find SLOTS k = None"
    by auto
  then have "m1 k = m k" and "m' k = m1 k"
    using processSlot_frame [OF step] Cons.IH [OF rest] by auto
  then show ?case by simp
qed

lemma forEach_skip_unknown:
  "forEach (processSlot sim SLOTS gs) xs st
     = forEach (processSlot sim SLOTS gs) (filter (\<lambda>i. SLOTS_find SLOTS i \<noteq> None) xs) st"
proof (induction xs arbitrary: st)
  case Nil
  then show ?case by simp
next
  case (Cons x xs)
  obtain m g where st: "st = (m, g)"
    by (cases st)
  show ?case
  proof (cases "SLOTS_find SLOTS x")
    case None
    then show ?thesis
      by (simp add: st processSlot_unknown Cons.IH)
  next
    case (Some config)
    then show ?thesis
      by (simp add: Cons.IH split: sum.splits)
  qed
qed

text \<open>
  C8 as stated fails: an active id that is absent from the catalog is skipped by the
  guard of line 37 and the tick returns normally, with nothing reported to the caller.
\<close>

theorem unknown_asset_silently_skipped:
  "SLOTS_find [cfg0] ''ghost'' = None
   \<and> processSimulations sim0 [cfg0] [''ghost''] 1 map0 0 = Inr (map0, 0)"
  by (simp add: processSimulations_def processSlot_def SLOTS_find_def cfg0_def)

text \<open>
  C8, amended: when aggregation is requested for an asset id that is absent from the
  catalog, no statistics record is created for that id (the step returns the map and
  the random source as they were), and the id is skipped silently: nothing is
  reported, and a tick behaves as it does on the active ids that the catalog knows.
\<close>

theorem unknown_asset_no_record_no_error:
  "(SLOTS_find SLOTS slotId = None \<longrightarrow>
      processSlot sim SLOTS globalStake slotId (nextMap, g) = Inr (nextMap, g))
   \<and> processSimulations sim SLOTS activeSlots globalStake prev g
       = processSimulations sim SLOTS
           (filter (\<lambda>i. SLOTS_find SLOTS i \<noteq> None) activeSlots) globalStake prev g"
  unfolding processSimulations_def
  by (intro conjI impI forEach_skip_unknown) (rule processSlot_unknown)

theorem unknown_asset_no_record_no_error_witness:
  "SLOTS_find [cfg0] ''ghost'' = None
   \<and> processSlot sim0 [cfg0] 1 ''ghost'' (map0, 0) = Inr (map0, 0)
   \<and> map0 ''ghost'' = None
   \<and> processSimulations sim0 [cfg0] [''ghost'', ''book-of-dead''] 1 map0 0
       = processSimulations sim0 [cfg0] [''book-of-dead''] 1 map0 0"
  using unknown_asset_no_record_no_error
    [where SLOTS = "[cfg0]" and slotId = "''ghost''" and sim = sim0 and globalStake = 1
       and nextMap = map0 and g = 0 and activeSlots = "[''ghost'', ''book-of-dead'']"
       and prev = map0]
  by (simp add: SLOTS_find_def cfg0_def map0_def)

text \<open>
  C10: when a tick completes, the record of every asset id that is not in the active
  set, and of every id that the catalog does not know, is the one of the previous map
  (an absent record stays absent); only records of active ids known to the catalog
  can differ. (A tick that throws produces no map at all.)
\<close>

theorem tick_frame:
  assumes "processSimulations sim SLOTS activeSlots globalStake prev g = Inr (nextMap, g')"
    and "slotId \<notin> set activeSlots \<or> SLOTS_find SLOTS slotId = None"
  shows "nextMap slotId = prev slotId"
  using assms unfolding processSimulations_def
  by (rule forEach_processSlot_frame)

theorem tick_frame_witness:
  "processSimulations sim0 [cfg0] [''book-of-dead'', ''ghost''] 1 map0 0
     = Inr (map0(''book-of-dead'' \<mapsto> applyBatch stats0 cfg0 (replicate 100 (spin 1 2))), 1)
   \<and> ''razor-shark'' \<notin> set [''book-of-dead'', ''ghost'']
   \<and> SLOTS_find [cfg0] ''ghost'' = None
   \<and> (map0(''book-of-dead'' \<mapsto> applyBatch stats0 cfg0 (replicate 100 (spin 1 2))))
        ''razor-shark'' = map0 ''razor-shark''
   \<and> (map0(''book-of-dead'' \<mapsto> applyBatch stats0 cfg0 (replicate 100 (spin 1 2))))
        ''ghost'' = map0 ''ghost''
   \<and> totalSpins (applyBatch stats0 cfg0 (replicate 100 (spin 1 2))) = 100"
proof -
  have e: "processSimulations sim0 [cfg0] [''book-of-dead'', ''ghost''] 1 map0 0
     = Inr (map0(''book-of-dead'' \<mapsto> applyBatch stats0 cfg0 (replicate 100 (spin 1 2))), 1)"
    by (simp add: processSimulations_def processSlot_def aggregate_def SLOTS_find_def
        sim0_def cfg0_def map0_def)
  have a: "''razor-shark'' \<notin> set [''book-of-dead'', ''ghost'']"
    by simp
  have b: "SLOTS_find [cfg0] ''ghost'' = None"
    by (simp add: SLOTS_find_def cfg0_def)
  show ?thesis
    using tick_frame [OF e disjI1 [OF a]] tick_frame [OF e disjI2 [OF b]]
    by (simp add: e a b totalSpins_applyBatch stats0_def)
qed

end
